theory Spec2Isabelle
  imports Main "HOL-Library.Word"
begin

unbundle bit_operations_syntax

section \<open>Shared types\<close>

type_synonym byte = "8 word"

text \<open>
  Go errors as values. \<open>ParamError reason key val\<close> is \<open>paramError(reason, key, val)\<close>
  of the parameter parser, \<open>ProtocolError\<close> is \<open>ws.ProtocolError\<close>, \<open>Errorf\<close> a
  \<open>fmt.Errorf\<close> with a fixed message, \<open>BadTail buf tail\<close> the \<open>fmt.Errorf\<close> of
  \<open>Writer.checkTail\<close> (it formats the held-back bytes and the expected trailer), and
  \<open>External\<close> stands for the error values that a caller-supplied compressor returns.
  A nil error is \<open>None\<close>.
\<close>

datatype error =
    ParamError string string string
  | ProtocolError string
  | Errorf string
  | BadTail "byte list" "byte list"
  | External string

text \<open>The panic of \<open>setBits\<close> on a window-bits value it cannot encode.\<close>

datatype panic = InvalidBitsPanic byte

section \<open>The tokenized header option (package httphead)\<close>

text \<open>
  Modelled from the spec: \<open>httphead.Option\<close> belongs to an external package whose source
  is not part of the repository. The spec gives its interface: a name plus an ordered
  list of (key, optional value) pairs. A byte slice is a \<open>string\<close>; the nil slice and the
  empty slice are both \<open>[]\<close> (the code only ever takes \<open>len\<close> of a value and compares
  names with \<open>bytes.Equal\<close>, which do not tell them apart). \<open>Set\<close> appends a pair,
  \<open>ForEach\<close> visits the pairs in order and stops as soon as the callback returns false.
\<close>

record httphead_Option =
  Name :: string
  OptionParameters :: "(string \<times> string) list"

text \<open>The zero value of \<open>httphead.Option\<close>: the name is nil and there are no parameters.\<close>

definition zero_Option :: httphead_Option where
  "zero_Option = \<lparr>Name = [], OptionParameters = []\<rparr>"

text \<open>
  Modelled from the spec: \<open>opt.Parameters.Set(key, value)\<close> of the external package adds
  the pair at the end of the ordered list.
\<close>

definition Parameters_Set :: "httphead_Option \<Rightarrow> string \<Rightarrow> string \<Rightarrow> httphead_Option" where
  "Parameters_Set opt key val = opt\<lparr>OptionParameters := OptionParameters opt @ [(key, val)]\<rparr>"

text \<open>
  Modelled from the spec: \<open>opt.Parameters.ForEach(cb)\<close> of the external package calls
  \<open>cb\<close> on the pairs in order, until \<open>cb\<close> returns false. \<open>'s\<close> is the state of the
  variables the callback closes over.
\<close>

fun ForEach :: "(string \<times> string) list \<Rightarrow> (string \<Rightarrow> string \<Rightarrow> 's \<Rightarrow> 's \<times> bool) \<Rightarrow> 's \<Rightarrow> 's" where
  "ForEach [] cb s = s"
| "ForEach ((k, v) # rest) cb s =
     (case cb k v s of (s', ok) \<Rightarrow> if ok then ForEach rest cb s' else s')"

text \<open>
  Modelled from the spec: \<open>httphead.IntFromASCII\<close> reads a decimal ASCII integer; it
  fails on the empty slice and on any byte that is not a digit. (Go's \<open>int\<close> is taken
  as unbounded here; the parser's caller only accepts the values 8 to 15.)
\<close>

definition isDigit :: "char \<Rightarrow> bool" where
  "isDigit ch = (48 \<le> (of_char ch :: nat) \<and> (of_char ch :: nat) \<le> 57)"

definition IntFromASCII :: "string \<Rightarrow> int \<times> bool" where
  "IntFromASCII bts =
     (if length bts < 1 \<or> \<not> list_all isDigit bts then (0, False)
      else (foldl (\<lambda>ret ch. 10 * ret + (int (of_char ch) - 48)) 0 bts, True))"

text \<open>\<open>strconv.Itoa\<close> on the non-negative numbers \<open>init\<close> calls it with.\<close>

fun Itoa :: "nat \<Rightarrow> string" where
  "Itoa i = (if i < 10 then [char_of (48 + i)] else Itoa (i div 10) @ [char_of (48 + i mod 10)])"

declare Itoa.simps [simp del]

section \<open>Parameters: package constants\<close>

definition ExtensionName :: string where
  "ExtensionName = ''permessage-deflate''"

definition serverNoContextTakeover :: string where
  "serverNoContextTakeover = ''server_no_context_takeover''"

definition clientNoContextTakeover :: string where
  "clientNoContextTakeover = ''client_no_context_takeover''"

definition serverMaxWindowBits :: string where
  "serverMaxWindowBits = ''server_max_window_bits''"

definition clientMaxWindowBits :: string where
  "clientMaxWindowBits = ''client_max_window_bits''"

definition ExtensionNameBytes :: string where
  "ExtensionNameBytes = ExtensionName"

definition serverNoContextTakeoverBytes :: string where
  "serverNoContextTakeoverBytes = serverNoContextTakeover"

definition clientNoContextTakeoverBytes :: string where
  "clientNoContextTakeoverBytes = clientNoContextTakeover"

definition serverMaxWindowBitsBytes :: string where
  "serverMaxWindowBitsBytes = serverMaxWindowBits"

definition clientMaxWindowBitsBytes :: string where
  "clientMaxWindowBitsBytes = clientMaxWindowBits"

text \<open>The table \<open>windowBits\<close> as \<open>init\<close> fills it: entry \<open>i\<close> is \<open>Itoa (i + 8)\<close>.\<close>

definition windowBits :: "string list" where
  "windowBits = map (\<lambda>i. Itoa (i + 8)) [0..<8]"

definition isValidBits :: "int \<Rightarrow> bool" where
  "isValidBits x = (8 \<le> x \<and> x \<le> 15)"

section \<open>Parameters and WindowBits\<close>

text \<open>\<open>WindowBits\<close> is a \<open>byte\<close>.\<close>

record Parameters =
  ServerNoContextTakeover :: bool
  ClientNoContextTakeover :: bool
  ServerMaxWindowBits :: byte
  ClientMaxWindowBits :: byte

definition zero_Parameters :: Parameters where
  "zero_Parameters =
     \<lparr>ServerNoContextTakeover = False, ClientNoContextTakeover = False,
      ServerMaxWindowBits = 0, ClientMaxWindowBits = 0\<rparr>"

definition Defined :: "byte \<Rightarrow> bool" where
  "Defined b = (b > 0)"

definition bitsFromASCII :: "string \<Rightarrow> byte \<times> bool" where
  "bitsFromASCII p =
     (case IntFromASCII p of (n, ok) \<Rightarrow>
        if \<not> ok \<or> \<not> isValidBits n then (0, False) else (word_of_int n, True))"

definition setBits :: "httphead_Option \<Rightarrow> string \<Rightarrow> byte \<Rightarrow> panic + httphead_Option" where
  "setBits opt name bits =
     (if bits = 0 then Inr opt
      else if bits = 1 then Inr (Parameters_Set opt name [])
      else if \<not> isValidBits (uint bits) then Inl (InvalidBitsPanic bits)
      else Inr (Parameters_Set opt name (windowBits ! unat (bits - 8))))"

definition setBool :: "httphead_Option \<Rightarrow> string \<Rightarrow> bool \<Rightarrow> httphead_Option" where
  "setBool opt name flag = (if flag then Parameters_Set opt name [] else opt)"

definition paramError :: "string \<Rightarrow> string \<Rightarrow> string \<Rightarrow> error" where
  "paramError reason key val = ParamError reason key val"

subsection \<open>Parse\<close>

definition clientMaxWindowBitsSeen :: byte where
  "clientMaxWindowBitsSeen = push_bit 0 1"

definition serverMaxWindowBitsSeen :: byte where
  "serverMaxWindowBitsSeen = push_bit 1 1"

definition clientNoContextTakeoverSeen :: byte where
  "clientNoContextTakeoverSeen = push_bit 2 1"

definition serverNoContextTakeoverSeen :: byte where
  "serverNoContextTakeoverSeen = push_bit 3 1"

text \<open>
  The variables the callback of \<open>Parse\<close> closes over: the receiver \<open>*p\<close>, the byte
  \<open>seen\<close> and the named result \<open>err\<close>.
\<close>

record parse_state =
  ps_p :: Parameters
  ps_seen :: byte
  ps_err :: "error option"

text \<open>
  The callback handed to \<open>ForEach\<close>. It returns the updated variables and its result
  \<open>ok\<close>. The assignment \<open>p.ClientMaxWindowBits, ok = bitsFromASCII(val)\<close> stores the
  returned bits (0 on failure) before \<open>ok\<close> is tested, and \<open>seen\<close> is updated before it.
\<close>

definition Parse_callback :: "string \<Rightarrow> string \<Rightarrow> parse_state \<Rightarrow> parse_state \<times> bool" where
  "Parse_callback key val s =
     (if key = clientMaxWindowBits then
        if length val = 0 then
          (s\<lparr>ps_p := (ps_p s)\<lparr>ClientMaxWindowBits := 1\<rparr>\<rparr>, True)
        else if ps_seen s AND clientMaxWindowBitsSeen \<noteq> 0 then
          (s\<lparr>ps_err := Some (paramError ''duplicate'' key val)\<rparr>, False)
        else
          (case bitsFromASCII val of (b, ok) \<Rightarrow>
             let s1 = s\<lparr>ps_seen := ps_seen s OR clientMaxWindowBitsSeen,
                       ps_p := (ps_p s)\<lparr>ClientMaxWindowBits := b\<rparr>\<rparr>
             in if \<not> ok then (s1\<lparr>ps_err := Some (paramError ''invalid'' key val)\<rparr>, False)
                else (s1, True))
      else if key = serverMaxWindowBits then
        if length val = 0 then
          (s\<lparr>ps_err := Some (paramError ''invalid'' key val)\<rparr>, False)
        else if ps_seen s AND serverMaxWindowBitsSeen \<noteq> 0 then
          (s\<lparr>ps_err := Some (paramError ''duplicate'' key val)\<rparr>, False)
        else
          (case bitsFromASCII val of (b, ok) \<Rightarrow>
             let s1 = s\<lparr>ps_seen := ps_seen s OR serverMaxWindowBitsSeen,
                       ps_p := (ps_p s)\<lparr>ServerMaxWindowBits := b\<rparr>\<rparr>
             in if \<not> ok then (s1\<lparr>ps_err := Some (paramError ''invalid'' key val)\<rparr>, False)
                else (s1, True))
      else if key = clientNoContextTakeover then
        if length val > 0 then
          (s\<lparr>ps_err := Some (paramError ''invalid'' key val)\<rparr>, False)
        else if ps_seen s AND clientNoContextTakeoverSeen \<noteq> 0 then
          (s\<lparr>ps_err := Some (paramError ''duplicate'' key val)\<rparr>, False)
        else
          (s\<lparr>ps_seen := ps_seen s OR clientNoContextTakeoverSeen,
             ps_p := (ps_p s)\<lparr>ClientNoContextTakeover := True\<rparr>\<rparr>, True)
      else if key = serverNoContextTakeover then
        if length val > 0 then
          (s\<lparr>ps_err := Some (paramError ''invalid'' key val)\<rparr>, False)
        else if ps_seen s AND serverNoContextTakeoverSeen \<noteq> 0 then
          (s\<lparr>ps_err := Some (paramError ''duplicate'' key val)\<rparr>, False)
        else
          (s\<lparr>ps_seen := ps_seen s OR serverNoContextTakeoverSeen,
             ps_p := (ps_p s)\<lparr>ServerNoContextTakeover := True\<rparr>\<rparr>, True)
      else
        (s\<lparr>ps_err := Some (paramError ''unexpected'' key val)\<rparr>, False))"

text \<open>
  \<open>Parse\<close> overwrites its receiver with the zero value first, so the model takes no
  previous value; it returns the receiver as the call leaves it, and the error.
\<close>

definition Parse_init :: parse_state where
  "Parse_init = \<lparr>ps_p = zero_Parameters, ps_seen = 0, ps_err = None\<rparr>"

definition Parameters_Parse :: "httphead_Option \<Rightarrow> Parameters \<times> error option" where
  "Parameters_Parse opt =
     (let s = ForEach (OptionParameters opt) Parse_callback Parse_init
      in (ps_p s, ps_err s))"

subsection \<open>Option\<close>

definition Parameters_Option :: "Parameters \<Rightarrow> panic + httphead_Option" where
  "Parameters_Option p =
     (let opt0 = \<lparr>Name = ExtensionNameBytes, OptionParameters = []\<rparr>;
          opt1 = setBool opt0 serverNoContextTakeoverBytes (ServerNoContextTakeover p);
          opt2 = setBool opt1 clientNoContextTakeoverBytes (ClientNoContextTakeover p)
      in case setBits opt2 serverMaxWindowBitsBytes (ServerMaxWindowBits p) of
           Inl pn \<Rightarrow> Inl pn
         | Inr opt3 \<Rightarrow> setBits opt3 clientMaxWindowBitsBytes (ClientMaxWindowBits p))"

section \<open>Extension: the negotiation state\<close>

record Extension =
  Parameters :: Parameters
  accepted :: bool
  params :: Parameters

text \<open>
  \<open>Negotiate\<close> returns the extension as the call leaves it together with either the
  panic raised by \<open>want.Option()\<close> or the pair of results \<open>(accept, err)\<close>.
  \<open>n.params.Parse(opt)\<close> parses straight into the field \<open>n.params\<close>.
\<close>

definition Extension_Negotiate ::
    "Extension \<Rightarrow> httphead_Option \<Rightarrow> Extension \<times> (panic + httphead_Option \<times> error option)" where
  "Extension_Negotiate n opt =
     (if Name opt \<noteq> ExtensionNameBytes then (n, Inr (zero_Option, None))
      else if accepted n then (n, Inr (zero_Option, None))
      else
        let want = Parameters n in
        case Parameters_Parse opt of (p, err) \<Rightarrow>
          let n1 = n\<lparr>params := p\<rparr> in
          if err \<noteq> None then (n1, Inr (zero_Option, err))
          else if ServerMaxWindowBits (params n1) > ServerMaxWindowBits want then
            (n1, Inr (zero_Option, None))
          else if ClientMaxWindowBits want > ClientMaxWindowBits (params n1) then
            (n1, Inr (zero_Option, None))
          else if ServerNoContextTakeover (params n1) \<and> \<not> ServerNoContextTakeover want then
            (n1, Inr (zero_Option, None))
          else
            let n2 = n1\<lparr>accepted := True\<rparr> in
            (n2, case Parameters_Option want of
                   Inl pn \<Rightarrow> Inl pn
                 | Inr a \<Rightarrow> Inr (a, None)))"

definition Extension_Accepted :: "Extension \<Rightarrow> Parameters \<times> bool" where
  "Extension_Accepted n = (params n, accepted n)"

definition Extension_Reset :: "Extension \<Rightarrow> Extension" where
  "Extension_Reset n = n\<lparr>accepted := False, params := zero_Parameters\<rparr>"

section \<open>Frame header bits\<close>

text \<open>
  Modelled from the spec: \<open>ws.RsvBits\<close> and \<open>ws.Rsv\<close> live in package \<open>ws\<close> of this
  repository, whose source is missing here. The spec describes \<open>Rsv\<close> as a
  3-bit reserved field decomposed as the bits r1, r2, r3 and writes it \<open>000\<close> in that
  order, so r1 is the bit of weight 4, r2 of weight 2 and r3 of weight 1. \<open>ws_Rsv\<close>
  builds the byte from the three bits alone.
\<close>

definition ws_RsvBits :: "byte \<Rightarrow> bool \<times> bool \<times> bool" where
  "ws_RsvBits rsv = (rsv AND 4 \<noteq> 0, rsv AND 2 \<noteq> 0, rsv AND 1 \<noteq> 0)"

text \<open>
  Modelled from the spec: \<open>ws.Rsv\<close> packs the three bits into the 3-bit field; the
  result has no other bit set.
\<close>

definition ws_Rsv :: "bool \<Rightarrow> bool \<Rightarrow> bool \<Rightarrow> byte" where
  "ws_Rsv r1 r2 r3 =
     (if r1 then 4 else 0) OR (if r2 then 2 else 0) OR (if r3 then 1 else 0)"

definition errNonFirstFragmentEnabledBit :: error where
  "errNonFirstFragmentEnabledBit =
     ProtocolError ''non-first fragment contains compression bit enabled''"

text \<open>
  Both functions return the byte and the error together, as the Go functions do.
  \<open>fseq\<close> is a Go \<open>int\<close>; it is only compared with 0.
\<close>

definition ExtendRead :: "int \<Rightarrow> byte \<Rightarrow> byte \<times> error option" where
  "ExtendRead fseq rsv =
     (case ws_RsvBits rsv of (r1, r2, r3) \<Rightarrow>
        if fseq > 0 \<and> r1 then (rsv, Some errNonFirstFragmentEnabledBit)
        else if fseq > 0 then (rsv, None)
        else (ws_Rsv False r2 r3, None))"

definition ExtendWrite :: "int \<Rightarrow> byte \<Rightarrow> byte \<times> error option" where
  "ExtendWrite fseq rsv =
     (case ws_RsvBits rsv of (r1, r2, r3) \<Rightarrow>
        if r1 then (rsv, Some (Errorf ''wsflate: compression bit is already set''))
        else if fseq > 0 then (rsv, None)
        else (ws_Rsv True r2 r3, None))"

section \<open>Writer\<close>

definition compressionTail :: "byte list" where
  "compressionTail = [0, 0, 0xff, 0xff]"

text \<open>
  Modelled from the spec: the type \<open>cbuf\<close> is declared in a file of package
  \<open>wsflate\<close> whose source is missing here. The spec describes it as a
  delayed-write buffer of exactly the trailer length, holding back the last 4 bytes
  written to it and bound to a destination; \<open>reset\<close> rebinds it to a destination with
  nothing held back. \<open>'d\<close> names a destination (an \<open>io.Writer\<close>); the bytes that
  reach the destination are not part of the model.
\<close>

record 'd cbuf =
  cbuf_buf :: "byte list"
  cbuf_dst :: 'd

text \<open>
  Modelled from the spec: \<open>cbuf.reset(dst)\<close> binds the buffer to \<open>dst\<close> and holds
  nothing back (the 4-byte array is zero).
\<close>

definition cbuf_reset :: "'d cbuf \<Rightarrow> 'd \<Rightarrow> 'd cbuf" where
  "cbuf_reset cb dst = cb\<lparr>cbuf_buf := [0, 0, 0, 0], cbuf_dst := dst\<rparr>"

text \<open>
  The interface \<open>Compressor\<close>, with the optional interfaces \<open>io.Closer\<close> and
  \<open>WriteResetter\<close>, as a table of methods over a compressor state \<open>'c\<close>. A compressor
  is created on \<open>&w.cbuf\<close> and writes its output there, so every method takes the
  current \<open>cbuf\<close> and returns it as the call leaves it. \<open>Close\<close> and \<open>Reset\<close> are
  \<open>None\<close> when the compressor does not implement the optional interface.
\<close>

record ('c, 'd) Compressor =
  Write :: "'c \<Rightarrow> 'd cbuf \<Rightarrow> byte list \<Rightarrow> (int \<times> error option) \<times> 'c \<times> 'd cbuf"
  Flush :: "'c \<Rightarrow> 'd cbuf \<Rightarrow> error option \<times> 'c \<times> 'd cbuf"
  Close :: "('c \<Rightarrow> 'd cbuf \<Rightarrow> error option \<times> 'c \<times> 'd cbuf) option"
  Reset :: "('c \<Rightarrow> 'd cbuf \<Rightarrow> 'c \<times> 'd cbuf) option"

text \<open>
  The struct \<open>Writer\<close>. Its unexported fields \<open>c\<close>, \<open>err\<close> and \<open>cbuf\<close> are
  \<open>w_c\<close>, \<open>w_err\<close> and \<open>w_cbuf\<close>; \<open>w_c = None\<close> is the nil compressor. The field
  \<open>Compressor\<close> is the factory: it returns a compressor bound to the given \<open>cbuf\<close>.
\<close>

record ('c, 'd) Writer =
  Dest :: 'd
  Compressor :: "'d cbuf \<Rightarrow> 'c \<times> 'd cbuf"
  w_c :: "'c option"
  w_err :: "error option"
  w_cbuf :: "'d cbuf"

text \<open>\<open>init\<close> returns the writer together with the compressor \<open>w.c\<close> it leaves in place.\<close>

definition Writer_init :: "('c, 'd) Writer \<Rightarrow> ('c, 'd) Writer \<times> 'c" where
  "Writer_init w =
     (case w_c w of
        None \<Rightarrow>
          (case Compressor w (cbuf_reset (w_cbuf w) (Dest w)) of (c, cb) \<Rightarrow>
             (w\<lparr>w_cbuf := cb, w_c := Some c\<rparr>, c))
      | Some c \<Rightarrow> (w, c))"

definition Writer_Reset ::
    "('c, 'd) Compressor \<Rightarrow> ('c, 'd) Writer \<Rightarrow> 'd \<Rightarrow> ('c, 'd) Writer" where
  "Writer_Reset ops w dest =
     (case Writer_init w of (w1, c) \<Rightarrow>
        let w2 = w1\<lparr>w_err := None\<rparr>;
            w3 = w2\<lparr>w_cbuf := cbuf_reset (w_cbuf w2) dest\<rparr>
        in case (case Reset ops of
                   Some reset \<Rightarrow> reset c (w_cbuf w3)
                 | None \<Rightarrow> Compressor w3 (w_cbuf w3)) of
             (c', cb) \<Rightarrow> w3\<lparr>w_c := Some c', w_cbuf := cb\<rparr>)"

definition Writer_Write ::
    "('c, 'd) Compressor \<Rightarrow> ('c, 'd) Writer \<Rightarrow> byte list \<Rightarrow> ('c, 'd) Writer \<times> int \<times> error option" where
  "Writer_Write ops w p =
     (case Writer_init w of (w1, c) \<Rightarrow>
        if w_err w1 \<noteq> None then (w1, 0, w_err w1)
        else case Write ops c (w_cbuf w1) p of ((n, e), c', cb) \<Rightarrow>
          (w1\<lparr>w_c := Some c', w_cbuf := cb, w_err := e\<rparr>, n, e))"

definition Writer_checkTail :: "('c, 'd) Writer \<Rightarrow> ('c, 'd) Writer" where
  "Writer_checkTail w =
     (if w_err w = None \<and> cbuf_buf (w_cbuf w) \<noteq> compressionTail
      then w\<lparr>w_err := Some (BadTail (cbuf_buf (w_cbuf w)) compressionTail)\<rparr>
      else w)"

definition Writer_Flush ::
    "('c, 'd) Compressor \<Rightarrow> ('c, 'd) Writer \<Rightarrow> ('c, 'd) Writer \<times> error option" where
  "Writer_Flush ops w =
     (case Writer_init w of (w1, c) \<Rightarrow>
        if w_err w1 \<noteq> None then (w1, w_err w1)
        else case Flush ops c (w_cbuf w1) of (e, c', cb) \<Rightarrow>
          let w2 = Writer_checkTail (w1\<lparr>w_c := Some c', w_cbuf := cb, w_err := e\<rparr>)
          in (w2, w_err w2))"

definition Writer_Close ::
    "('c, 'd) Compressor \<Rightarrow> ('c, 'd) Writer \<Rightarrow> ('c, 'd) Writer \<times> error option" where
  "Writer_Close ops w =
     (if w_err w \<noteq> None then (w, w_err w)
      else case Writer_init w of (w1, c) \<Rightarrow>
        let w2 = (case Close ops of
                    Some close \<Rightarrow>
                      (case close c (w_cbuf w1) of (e, c', cb) \<Rightarrow>
                         w1\<lparr>w_c := Some c', w_cbuf := cb, w_err := e\<rparr>)
                  | None \<Rightarrow> w1);
            w3 = Writer_checkTail w2
        in (w3, w_err w3))"

definition Writer_Err :: "('c, 'd) Writer \<Rightarrow> error option" where
  "Writer_Err w = w_err w"

section \<open>Proof vocabulary\<close>

text \<open>
  \<open>marks k v i\<close>: the pair \<open>(k, v)\<close>, when the callback of \<open>Parse\<close> accepts it, sets
  bit \<open>i\<close> of \<open>seen\<close>. The bare form of \<open>client_max_window_bits\<close> returns before the
  flag is touched, so it marks nothing.
\<close>

abbreviation marks :: "string \<Rightarrow> string \<Rightarrow> nat \<Rightarrow> bool" where
  "marks k v i \<equiv>
     (k = clientMaxWindowBits \<and> v \<noteq> [] \<and> i = 0) \<or> (k = serverMaxWindowBits \<and> i = 1)
   \<or> (k = clientNoContextTakeover \<and> i = 2) \<or> (k = serverNoContextTakeover \<and> i = 3)"

section \<open>The flags of \<open>seen\<close> and the parameter keys\<close>

lemma seen_test:
  "(x AND clientMaxWindowBitsSeen \<noteq> 0) = bit x 0"
  "(x AND serverMaxWindowBitsSeen \<noteq> 0) = bit x 1"
  "(x AND clientNoContextTakeoverSeen \<noteq> 0) = bit x 2"
  "(x AND serverNoContextTakeoverSeen \<noteq> 0) = bit x 3"
  unfolding clientMaxWindowBitsSeen_def serverMaxWindowBitsSeen_def
    clientNoContextTakeoverSeen_def serverNoContextTakeoverSeen_def push_bit_of_1
  by (simp_all only: and_exp_eq_0_iff_not_bit not_not)

lemma seen_set:
  "bit (x OR clientMaxWindowBitsSeen) i = (bit x i \<or> i = 0)"
  "bit (x OR serverMaxWindowBitsSeen) i = (bit x i \<or> i = 1)"
  "bit (x OR clientNoContextTakeoverSeen) i = (bit x i \<or> i = 2)"
  "bit (x OR serverNoContextTakeoverSeen) i = (bit x i \<or> i = 3)"
  unfolding clientMaxWindowBitsSeen_def serverMaxWindowBitsSeen_def
    clientNoContextTakeoverSeen_def serverNoContextTakeoverSeen_def push_bit_of_1
  by (simp_all only: bit_or_iff bit_exp_iff) (auto simp: possible_bit_word)

lemma seen_bit:
  "bit clientMaxWindowBitsSeen i = (i = 0)"
  "bit serverMaxWindowBitsSeen i = (i = 1)"
  "bit clientNoContextTakeoverSeen i = (i = 2)"
  "bit serverNoContextTakeoverSeen i = (i = 3)"
  using seen_set [of 0 i] by simp_all

lemma keys_neq:
  "clientMaxWindowBits \<noteq> serverMaxWindowBits"
  "clientMaxWindowBits \<noteq> clientNoContextTakeover"
  "clientMaxWindowBits \<noteq> serverNoContextTakeover"
  "serverMaxWindowBits \<noteq> clientNoContextTakeover"
  "serverMaxWindowBits \<noteq> serverNoContextTakeover"
  "clientNoContextTakeover \<noteq> serverNoContextTakeover"
  by (simp_all add: clientMaxWindowBits_def serverMaxWindowBits_def
      clientNoContextTakeover_def serverNoContextTakeover_def)

lemmas cb_simps = Parse_callback_def paramError_def Let_def seen_test seen_set
  keys_neq keys_neq [symmetric]

section \<open>One step of \<open>Parse\<close>\<close>

lemma cb_fail_err:
  "\<not> snd (Parse_callback k v s) \<Longrightarrow> ps_err (fst (Parse_callback k v s)) \<noteq> None"
  by (auto simp: cb_simps split: if_splits prod.splits)

lemma cb_ok_err:
  "snd (Parse_callback k v s) \<Longrightarrow> ps_err (fst (Parse_callback k v s)) = ps_err s"
  by (auto simp: cb_simps split: if_splits prod.splits)

lemma cb_seen_mono:
  "bit (ps_seen s) i \<Longrightarrow> bit (ps_seen (fst (Parse_callback k v s))) i"
  by (auto simp: cb_simps split: if_splits prod.splits)

lemma cb_marks:
  "snd (Parse_callback k v s) \<Longrightarrow> marks k v i \<Longrightarrow> bit (ps_seen (fst (Parse_callback k v s))) i"
  by (auto simp: cb_simps split: if_splits prod.splits)

lemma cb_seen_fails:
  "bit (ps_seen s) i \<Longrightarrow> marks k v i \<Longrightarrow> \<not> snd (Parse_callback k v s)"
  by (auto simp: cb_simps split: if_splits prod.splits)

lemma cb_duplicate:
  "bit (ps_seen s) i \<Longrightarrow> marks k v i \<Longrightarrow>
   (v = [] \<longleftrightarrow> k = clientNoContextTakeover \<or> k = serverNoContextTakeover) \<Longrightarrow>
   Parse_callback k v s = (s\<lparr>ps_err := Some (ParamError ''duplicate'' k v)\<rparr>, False)"
  by (auto simp: cb_simps split: if_splits prod.splits)

section \<open>The loop of \<open>Parse\<close>\<close>

lemma ForEach_Cons:
  "ForEach ((k, v) # rest) Parse_callback s =
     (if snd (Parse_callback k v s) then ForEach rest Parse_callback (fst (Parse_callback k v s))
      else fst (Parse_callback k v s))"
  by (simp split: prod.splits)

lemma ForEach_seen_mono:
  "bit (ps_seen s) i \<Longrightarrow> bit (ps_seen (ForEach xs Parse_callback s)) i"
proof (induction xs arbitrary: s)
  case Nil
  then show ?case by simp
next
  case (Cons x xs)
  obtain k v where x: "x = (k, v)" by (cases x)
  from Cons.prems have "bit (ps_seen (fst (Parse_callback k v s))) i"
    by (rule cb_seen_mono)
  with Cons.IH show ?case
    unfolding x ForEach_Cons by simp
qed

lemma ForEach_append:
  "ForEach (xs @ ys) Parse_callback s =
     (if ps_err (ForEach xs Parse_callback s) = None
      then ForEach ys Parse_callback (ForEach xs Parse_callback s)
      else ForEach xs Parse_callback s)" if "ps_err s = None"
  using that
proof (induction xs arbitrary: s)
  case Nil
  then show ?case by simp
next
  case (Cons x xs)
  obtain k v where x: "x = (k, v)" by (cases x)
  show ?case
  proof (cases "snd (Parse_callback k v s)")
    case True
    then have "ps_err (fst (Parse_callback k v s)) = None"
      using Cons.prems by (simp add: cb_ok_err)
    from Cons.IH [OF this] True show ?thesis
      unfolding x append_Cons ForEach_Cons by simp
  next
    case False
    with cb_fail_err [OF False] show ?thesis
      unfolding x append_Cons ForEach_Cons by auto
  qed
qed

text \<open>Once the flag of a key is set, a later pair with that key stops the loop with an error.\<close>

lemma ForEach_seen_fails:
  "bit (ps_seen s) i \<Longrightarrow> marks k v i \<Longrightarrow>
   ps_err (ForEach (mid @ (k, v) # post) Parse_callback s) \<noteq> None"
proof (induction mid arbitrary: s)
  case Nil
  from cb_seen_fails [OF Nil] cb_fail_err show ?case
    unfolding append_Nil ForEach_Cons by simp
next
  case (Cons x mid)
  obtain a b where x: "x = (a, b)" by (cases x)
  show ?case
  proof (cases "snd (Parse_callback a b s)")
    case True
    from Cons.prems(1) have "bit (ps_seen (fst (Parse_callback a b s))) i"
      by (rule cb_seen_mono)
    from Cons.IH [OF this Cons.prems(2)] True show ?thesis
      unfolding x append_Cons ForEach_Cons by simp
  next
    case False
    with cb_fail_err [OF False] show ?thesis
      unfolding x append_Cons ForEach_Cons by simp
  qed
qed

lemma ForEach_repeated_fails:
  "marks k v1 i \<Longrightarrow> marks k v2 i \<Longrightarrow>
   ps_err (ForEach (pre @ (k, v1) # mid @ (k, v2) # post) Parse_callback s) \<noteq> None"
proof (induction pre arbitrary: s)
  case Nil
  show ?case
  proof (cases "snd (Parse_callback k v1 s)")
    case True
    then have "bit (ps_seen (fst (Parse_callback k v1 s))) i"
      using Nil(1) by (rule cb_marks)
    from ForEach_seen_fails [OF this Nil(2)] True show ?thesis
      unfolding append_Nil ForEach_Cons by simp
  next
    case False
    with cb_fail_err [OF False] show ?thesis
      unfolding append_Nil ForEach_Cons by simp
  qed
next
  case (Cons x pre)
  obtain a b where x: "x = (a, b)" by (cases x)
  show ?case
  proof (cases "snd (Parse_callback a b s)")
    case True
    with Cons.IH [OF Cons.prems] show ?thesis
      unfolding x append_Cons ForEach_Cons by simp
  next
    case False
    with cb_fail_err [OF False] show ?thesis
      unfolding x append_Cons ForEach_Cons by simp
  qed
qed

text \<open>A prefix that parses without error leaves the flag of every marking pair in it set.\<close>

lemma ForEach_marked:
  assumes "marks k v1 i" and "ps_err s = None"
    and "ps_err (ForEach (pre @ (k, v1) # mid) Parse_callback s) = None"
  shows "bit (ps_seen (ForEach (pre @ (k, v1) # mid) Parse_callback s)) i"
proof -
  let ?s1 = "ForEach pre Parse_callback s"
  have split: "ForEach (pre @ (k, v1) # mid) Parse_callback s =
      (if ps_err ?s1 = None then ForEach ((k, v1) # mid) Parse_callback ?s1 else ?s1)"
    using assms(2) by (rule ForEach_append)
  from assms(3) have e1: "ps_err ?s1 = None"
    unfolding split by (auto split: if_splits)
  have ok: "snd (Parse_callback k v1 ?s1)"
  proof (rule ccontr)
    assume n: "\<not> snd (Parse_callback k v1 ?s1)"
    from assms(3) e1 n cb_fail_err [OF n] show False
      unfolding split ForEach_Cons by simp
  qed
  from ok assms(1) have "bit (ps_seen (fst (Parse_callback k v1 ?s1))) i"
    by (rule cb_marks)
  then have "bit (ps_seen (ForEach mid Parse_callback (fst (Parse_callback k v1 ?s1)))) i"
    by (rule ForEach_seen_mono)
  with e1 ok show ?thesis
    unfolding split ForEach_Cons by simp
qed

section \<open>Negotiation\<close>

lemmas parse_eval = Parameters_Parse_def Parse_init_def zero_Parameters_def Parse_callback_def
  paramError_def Let_def clientMaxWindowBits_def serverMaxWindowBits_def
  clientNoContextTakeover_def serverNoContextTakeover_def
  clientMaxWindowBitsSeen_def serverMaxWindowBitsSeen_def
  clientNoContextTakeoverSeen_def serverNoContextTakeoverSeen_def
  bitsFromASCII_def IntFromASCII_def isDigit_def isValidBits_def

lemmas option_eval = Parameters_Option_def setBool_def setBits_def Parameters_Set_def Let_def
  ExtensionNameBytes_def ExtensionName_def
  serverNoContextTakeoverBytes_def clientNoContextTakeoverBytes_def
  serverMaxWindowBitsBytes_def clientMaxWindowBitsBytes_def
  clientMaxWindowBits_def serverMaxWindowBits_def
  clientNoContextTakeover_def serverNoContextTakeover_def isValidBits_def

subsection \<open>Offers that fail to parse\<close>

text \<open>
  \<open>Negotiate\<close> calls \<open>Parse\<close> on its own field \<open>params\<close>, and \<open>Parse\<close> overwrites
  its receiver before it looks at the first pair. On a fresh extension, an offer whose
  second pair has an unknown key is refused with the parse error, and \<open>Accepted()\<close>
  afterwards gives the flag parsed from the first pair, not the zero value it gave before.
\<close>

theorem Negotiate_parse_error_counterexample:
  "Name \<lparr>Name = ''permessage-deflate'',
         OptionParameters = [(''server_no_context_takeover'', []), (''foo'', [])]\<rparr>
     = ExtensionNameBytes
   \<and> snd (Parameters_Parse
          \<lparr>Name = ''permessage-deflate'',
           OptionParameters = [(''server_no_context_takeover'', []), (''foo'', [])]\<rparr>)
       = Some (ParamError ''unexpected'' ''foo'' [])
   \<and> snd (Extension_Negotiate
          \<lparr>Parameters = zero_Parameters, accepted = False, params = zero_Parameters\<rparr>
          \<lparr>Name = ''permessage-deflate'',
           OptionParameters = [(''server_no_context_takeover'', []), (''foo'', [])]\<rparr>)
       = Inr (zero_Option, Some (ParamError ''unexpected'' ''foo'' []))
   \<and> Extension_Accepted (fst (Extension_Negotiate
          \<lparr>Parameters = zero_Parameters, accepted = False, params = zero_Parameters\<rparr>
          \<lparr>Name = ''permessage-deflate'',
           OptionParameters = [(''server_no_context_takeover'', []), (''foo'', [])]\<rparr>))
       \<noteq> Extension_Accepted
           \<lparr>Parameters = zero_Parameters, accepted = False, params = zero_Parameters\<rparr>"
  by (simp add: Extension_Negotiate_def Extension_Accepted_def parse_eval
      ExtensionNameBytes_def ExtensionName_def)

text \<open>
  Claim C2, as amended. For an extension that has not accepted yet and an offer named
  \<open>permessage-deflate\<close> whose parameters fail to parse, \<open>Negotiate\<close> returns the zero
  option with that parse error, leaves \<open>accepted\<close> false and the desired \<open>Parameters\<close>
  as they were, and leaves in \<open>params\<close> (the first result of \<open>Accepted()\<close>) what
  \<open>Parse\<close> had stored when it stopped.
\<close>

theorem Negotiate_parse_error:
  assumes "Name opt = ExtensionNameBytes" and "\<not> accepted n"
    and "Parameters_Parse opt = (p, Some e)"
  shows "Extension_Negotiate n opt = (n\<lparr>params := p\<rparr>, Inr (zero_Option, Some e))
       \<and> Extension_Accepted (fst (Extension_Negotiate n opt)) = (p, False)
       \<and> Parameters (fst (Extension_Negotiate n opt)) = Parameters n"
  using assms by (simp add: Extension_Negotiate_def Extension_Accepted_def Let_def)

theorem Negotiate_parse_error_witness:
  "Extension_Negotiate
     \<lparr>Parameters = zero_Parameters, accepted = False, params = zero_Parameters\<rparr>
     \<lparr>Name = ''permessage-deflate'',
      OptionParameters = [(''server_no_context_takeover'', []), (''foo'', [])]\<rparr>
   = (\<lparr>Parameters = zero_Parameters, accepted = False,
       params = \<lparr>ServerNoContextTakeover = True, ClientNoContextTakeover = False,
                  ServerMaxWindowBits = 0, ClientMaxWindowBits = 0\<rparr>\<rparr>,
      Inr (zero_Option, Some (ParamError ''unexpected'' ''foo'' [])))"
  (is "Extension_Negotiate ?n ?opt = _")
proof -
  have h1: "Name ?opt = ExtensionNameBytes"
    by (simp add: ExtensionNameBytes_def ExtensionName_def)
  have h2: "\<not> accepted ?n" by simp
  have h3: "Parameters_Parse ?opt =
      (\<lparr>ServerNoContextTakeover = True, ClientNoContextTakeover = False,
        ServerMaxWindowBits = 0, ClientMaxWindowBits = 0\<rparr>,
       Some (ParamError ''unexpected'' ''foo'' []))"
    by (simp add: parse_eval)
  from Negotiate_parse_error [OF h1 h2 h3] show ?thesis by simp
qed

section \<open>Repeated keys\<close>

text \<open>
  Each case of the callback tests the form of the value before it tests the flag of the
  key: \<open>server_no_context_takeover\<close> given twice with a value is refused as invalid,
  not as a duplicate.
\<close>

theorem Parse_repeated_key_counterexample:
  "Parameters_Parse
     \<lparr>Name = ''permessage-deflate'',
      OptionParameters = [(''server_no_context_takeover'', ''x''),
                          (''server_no_context_takeover'', ''x'')]\<rparr>
   = (zero_Parameters, Some (ParamError ''invalid'' ''server_no_context_takeover'' ''x''))"
  by (simp add: parse_eval)

text \<open>
  Claim C3, as amended. Let one of the keys \<open>server_max_window_bits\<close>,
  \<open>client_no_context_takeover\<close>, \<open>server_no_context_takeover\<close> occur twice in an
  option, or \<open>client_max_window_bits\<close> occur twice with a value. Then \<open>Parse\<close> returns
  a non-nil error. When the pairs before the second occurrence parse without error and
  the value of the second occurrence has the form its key asks for (present for the
  window bits, absent for the flags), that error is the duplicate error for the key and
  the value of the second occurrence.
\<close>

theorem Parse_repeated_key:
  assumes "OptionParameters opt = pre @ (k, v1) # mid @ (k, v2) # post"
    and "k = serverMaxWindowBits \<or> k = clientNoContextTakeover \<or> k = serverNoContextTakeover
         \<or> (k = clientMaxWindowBits \<and> v1 \<noteq> [] \<and> v2 \<noteq> [])"
  shows "snd (Parameters_Parse opt) \<noteq> None
       \<and> (snd (Parameters_Parse (opt\<lparr>OptionParameters := pre @ (k, v1) # mid\<rparr>)) = None
            \<and> (v2 = [] \<longleftrightarrow> k = clientNoContextTakeover \<or> k = serverNoContextTakeover)
          \<longrightarrow> snd (Parameters_Parse opt) = Some (ParamError ''duplicate'' k v2))"
proof -
  from assms(2) obtain i where m1: "marks k v1 i" and m2: "marks k v2 i"
    by auto
  have init: "ps_err Parse_init = None" by (simp add: Parse_init_def)
  have fails: "snd (Parameters_Parse opt) \<noteq> None"
    using ForEach_repeated_fails [OF m1 m2, of pre mid post Parse_init]
    by (simp add: Parameters_Parse_def assms(1) Let_def)
  have dup: "snd (Parameters_Parse opt) = Some (ParamError ''duplicate'' k v2)"
    if pre_ok: "snd (Parameters_Parse (opt\<lparr>OptionParameters := pre @ (k, v1) # mid\<rparr>)) = None"
      and form: "v2 = [] \<longleftrightarrow> k = clientNoContextTakeover \<or> k = serverNoContextTakeover"
  proof -
    let ?s = "ForEach (pre @ (k, v1) # mid) Parse_callback Parse_init"
    from pre_ok have e: "ps_err ?s = None"
      by (simp add: Parameters_Parse_def Let_def)
    from ForEach_marked [OF m1 init e] have b: "bit (ps_seen ?s) i" .
    have "ForEach ((pre @ (k, v1) # mid) @ (k, v2) # post) Parse_callback Parse_init =
          ForEach ((k, v2) # post) Parse_callback ?s"
      using ForEach_append [OF init, of "pre @ (k, v1) # mid" "(k, v2) # post"] e by simp
    also have "\<dots> = ?s\<lparr>ps_err := Some (ParamError ''duplicate'' k v2)\<rparr>"
      unfolding ForEach_Cons cb_duplicate [OF b m2 form] by simp
    finally show ?thesis
      by (simp add: Parameters_Parse_def assms(1) Let_def)
  qed
  from fails dup show ?thesis by blast
qed

theorem Parse_repeated_key_witness:
  "snd (Parameters_Parse
     \<lparr>Name = ''permessage-deflate'',
      OptionParameters = [(''server_max_window_bits'', ''10''),
                          (''client_no_context_takeover'', []),
                          (''server_max_window_bits'', ''12'')]\<rparr>)
   = Some (ParamError ''duplicate'' ''server_max_window_bits'' ''12'')"
  (is "snd (Parameters_Parse ?opt) = _")
proof -
  have h1: "OptionParameters ?opt =
      [] @ (serverMaxWindowBits, ''10'') # [(''client_no_context_takeover'', [])]
         @ (serverMaxWindowBits, ''12'') # []"
    by (simp add: serverMaxWindowBits_def)
  have h2: "serverMaxWindowBits = serverMaxWindowBits \<or> serverMaxWindowBits = clientNoContextTakeover
      \<or> serverMaxWindowBits = serverNoContextTakeover
      \<or> (serverMaxWindowBits = clientMaxWindowBits \<and> ''10'' \<noteq> [] \<and> ''12'' \<noteq> [])"
    by simp
  have pre: "snd (Parameters_Parse (?opt\<lparr>OptionParameters :=
      [] @ (serverMaxWindowBits, ''10'') # [(''client_no_context_takeover'', [])]\<rparr>)) = None"
    by (simp add: parse_eval)
  have form: "(''12'' = []) = (serverMaxWindowBits = clientNoContextTakeover
      \<or> serverMaxWindowBits = serverNoContextTakeover)"
    by (simp add: keys_neq)
  from Parse_repeated_key [OF h1 h2] pre form show ?thesis
    by (simp add: serverMaxWindowBits_def)
qed

text \<open>
  The bare form of \<open>client_max_window_bits\<close> is outside the theorem above: its case
  returns before the flag is tested or set, so the key may be given bare any number of
  times, also next to one occurrence with a value.
\<close>

lemma Parse_bare_client_bits_twice:
  "Parameters_Parse
     \<lparr>Name = ''permessage-deflate'',
      OptionParameters = [(''client_max_window_bits'', []), (''client_max_window_bits'', [])]\<rparr>
   = (zero_Parameters\<lparr>ClientMaxWindowBits := 1\<rparr>, None)"
  by (simp add: parse_eval)


section \<open>Encoding and parsing\<close>

lemma valid_bits_cases:
  fixes b :: byte
  assumes "isValidBits (uint b)"
  shows "b = 8 \<or> b = 9 \<or> b = 10 \<or> b = 11 \<or> b = 12 \<or> b = 13 \<or> b = 14 \<or> b = 15"
proof -
  from assms have "8 \<le> uint b" "uint b \<le> 15" by (simp_all add: isValidBits_def)
  then have "uint b = 8 \<or> uint b = 9 \<or> uint b = 10 \<or> uint b = 11 \<or> uint b = 12
      \<or> uint b = 13 \<or> uint b = 14 \<or> uint b = 15" by arith
  then show ?thesis
    by (auto simp: word_uint_eq_iff)
qed

lemma windowBits_entries:
  "windowBits = [''8'', ''9'', ''10'', ''11'', ''12'', ''13'', ''14'', ''15'']"
  by code_simp

lemma valid_bits_encoding:
  fixes b :: byte
  assumes "isValidBits (uint b)"
  shows "b \<noteq> 0" "b \<noteq> 1" "windowBits ! unat (b - 8) \<noteq> []"
    "bitsFromASCII (windowBits ! unat (b - 8)) = (b, True)"
  using valid_bits_cases [OF assms] assms
  by (auto simp: windowBits_entries bitsFromASCII_def IntFromASCII_def isDigit_def isValidBits_def)

lemma cb_flag:
  "\<not> bit (ps_seen s) 3 \<Longrightarrow> Parse_callback serverNoContextTakeover [] s =
     (s\<lparr>ps_seen := ps_seen s OR serverNoContextTakeoverSeen,
        ps_p := (ps_p s)\<lparr>ServerNoContextTakeover := True\<rparr>\<rparr>, True)"
  "\<not> bit (ps_seen s) 2 \<Longrightarrow> Parse_callback clientNoContextTakeover [] s =
     (s\<lparr>ps_seen := ps_seen s OR clientNoContextTakeoverSeen,
        ps_p := (ps_p s)\<lparr>ClientNoContextTakeover := True\<rparr>\<rparr>, True)"
  by (simp_all add: cb_simps)

lemma cb_bits:
  "\<not> bit (ps_seen s) 1 \<Longrightarrow> isValidBits (uint b) \<Longrightarrow>
   Parse_callback serverMaxWindowBits (windowBits ! unat (b - 8)) s =
     (s\<lparr>ps_seen := ps_seen s OR serverMaxWindowBitsSeen,
        ps_p := (ps_p s)\<lparr>ServerMaxWindowBits := b\<rparr>\<rparr>, True)"
  "\<not> bit (ps_seen s) 0 \<Longrightarrow> isValidBits (uint b) \<Longrightarrow>
   Parse_callback clientMaxWindowBits (windowBits ! unat (b - 8)) s =
     (s\<lparr>ps_seen := ps_seen s OR clientMaxWindowBitsSeen,
        ps_p := (ps_p s)\<lparr>ClientMaxWindowBits := b\<rparr>\<rparr>, True)"
  "Parse_callback clientMaxWindowBits [] s =
     (s\<lparr>ps_p := (ps_p s)\<lparr>ClientMaxWindowBits := 1\<rparr>\<rparr>, True)"
  by (simp_all add: cb_simps valid_bits_encoding)

text \<open>
  \<open>setBits\<close> writes the value 1 as a bare parameter under either name, and \<open>Parse\<close>
  refuses a bare \<open>server_max_window_bits\<close>: the round trip of
  \<open>ServerMaxWindowBits = 1\<close> ends in the invalid-value error with the field at 0.
\<close>

theorem Option_Parse_roundtrip_counterexample:
  "Parameters_Option (zero_Parameters\<lparr>ServerMaxWindowBits := 1\<rparr>)
     = Inr \<lparr>Name = ''permessage-deflate'', OptionParameters = [(''server_max_window_bits'', [])]\<rparr>
   \<and> Parameters_Parse
       \<lparr>Name = ''permessage-deflate'', OptionParameters = [(''server_max_window_bits'', [])]\<rparr>
     = (zero_Parameters, Some (ParamError ''invalid'' ''server_max_window_bits'' []))"
  by (simp add: option_eval parse_eval)

text \<open>
  Claim C4, as amended. For parameters whose \<open>ServerMaxWindowBits\<close> is 0 or in 8..15
  and whose \<open>ClientMaxWindowBits\<close> is 0, 1 or in 8..15, \<open>Option()\<close> returns an option
  that \<open>Parse\<close> reads back without error as the same parameters. So a value in 8..15
  comes back unchanged in either field, and the bare value 1 comes back as 1 in
  \<open>ClientMaxWindowBits\<close>.
\<close>

theorem Option_Parse_roundtrip:
  assumes "ServerMaxWindowBits p = 0 \<or> isValidBits (uint (ServerMaxWindowBits p))"
    and "ClientMaxWindowBits p = 0 \<or> ClientMaxWindowBits p = 1
         \<or> isValidBits (uint (ClientMaxWindowBits p))"
  shows "\<exists>opt. Parameters_Option p = Inr opt \<and> Parameters_Parse opt = (p, None)"
proof -
  obtain a b c d where p: "p = \<lparr>ServerNoContextTakeover = a, ClientNoContextTakeover = b,
      ServerMaxWindowBits = c, ClientMaxWindowBits = d\<rparr>"
    by (cases p) auto
  from assms have c: "c = 0 \<or> isValidBits (uint c)"
    and d: "d = 0 \<or> d = 1 \<or> isValidBits (uint d)"
    by (simp_all add: p)
  note defs = p Parameters_Option_def setBool_def setBits_def Parameters_Set_def
      Parameters_Parse_def Parse_init_def zero_Parameters_def Let_def
      serverNoContextTakeoverBytes_def clientNoContextTakeoverBytes_def
      serverMaxWindowBitsBytes_def clientMaxWindowBitsBytes_def
      cb_flag cb_bits seen_set seen_bit valid_bits_encoding(1,2)
  from c d consider "c = 0" "d = 0" | "c = 0" "d = 1" | "c = 0" "isValidBits (uint d)"
    | "isValidBits (uint c)" "d = 0" | "isValidBits (uint c)" "d = 1"
    | "isValidBits (uint c)" "isValidBits (uint d)"
    by blast
  then show ?thesis
  proof cases
    case 1
    then show ?thesis by (cases a; cases b) (simp_all add: defs)
  next
    case 2
    then show ?thesis by (cases a; cases b) (simp_all add: defs)
  next
    case 3
    then show ?thesis by (cases a; cases b) (simp_all add: defs)
  next
    case 4
    then show ?thesis by (cases a; cases b) (simp_all add: defs)
  next
    case 5
    then show ?thesis by (cases a; cases b) (simp_all add: defs)
  next
    case 6
    then show ?thesis by (cases a; cases b) (simp_all add: defs)
  qed
qed

theorem Option_Parse_roundtrip_witness:
  "Parameters_Parse
     \<lparr>Name = ''permessage-deflate'',
      OptionParameters = [(''server_no_context_takeover'', []),
                          (''server_max_window_bits'', ''12''),
                          (''client_max_window_bits'', [])]\<rparr>
   = (\<lparr>ServerNoContextTakeover = True, ClientNoContextTakeover = False,
       ServerMaxWindowBits = 12, ClientMaxWindowBits = 1\<rparr>, None)"
proof -
  let ?p = "\<lparr>ServerNoContextTakeover = True, ClientNoContextTakeover = False,
             ServerMaxWindowBits = 12 :: byte, ClientMaxWindowBits = 1 :: byte\<rparr>"
  have h1: "ServerMaxWindowBits ?p = 0 \<or> isValidBits (uint (ServerMaxWindowBits ?p))"
    by (simp add: isValidBits_def)
  have h2: "ClientMaxWindowBits ?p = 0 \<or> ClientMaxWindowBits ?p = 1
      \<or> isValidBits (uint (ClientMaxWindowBits ?p))"
    by simp
  have enc: "Parameters_Option ?p =
      Inr \<lparr>Name = ''permessage-deflate'',
           OptionParameters = [(''server_no_context_takeover'', []),
                               (''server_max_window_bits'', ''12''),
                               (''client_max_window_bits'', [])]\<rparr>"
    by (simp add: option_eval windowBits_entries)
  from Option_Parse_roundtrip [OF h1 h2] show ?thesis
    unfolding enc by simp
qed

section \<open>The decision of \<open>Negotiate\<close>\<close>










section \<open>Negotiation after the first acceptance, and declined offers\<close>

text \<open>
  Claim C5. On an extension whose \<open>accepted\<close> flag is set, \<open>Negotiate\<close> returns the
  zero option with a nil error for every offer and leaves the extension as it was, so
  \<open>Accepted()\<close> gives the same parameters and the same flag as before; the flag stays
  set through \<open>Negotiate\<close>, and \<open>Reset\<close> clears it.
\<close>

theorem Negotiate_after_accept:
  assumes "accepted n"
  shows "Extension_Negotiate n opt = (n, Inr (zero_Option, None))
       \<and> Extension_Accepted (fst (Extension_Negotiate n opt)) = Extension_Accepted n
       \<and> accepted (fst (Extension_Negotiate n opt))
       \<and> \<not> accepted (Extension_Reset n)"
  using assms by (simp add: Extension_Negotiate_def Extension_Reset_def)

theorem Negotiate_after_accept_witness:
  "Extension_Negotiate
     \<lparr>Parameters = zero_Parameters, accepted = True,
      params = zero_Parameters\<lparr>ClientMaxWindowBits := 1\<rparr>\<rparr>
     \<lparr>Name = ''permessage-deflate'', OptionParameters = [(''server_no_context_takeover'', [])]\<rparr>
   = (\<lparr>Parameters = zero_Parameters, accepted = True,
       params = zero_Parameters\<lparr>ClientMaxWindowBits := 1\<rparr>\<rparr>,
      Inr (zero_Option, None))"
  (is "Extension_Negotiate ?n ?opt = _")
proof -
  have h: "accepted ?n" by simp
  from Negotiate_after_accept [OF h, of ?opt] show ?thesis by simp
qed

text \<open>
  Claim C10. For an extension that has not accepted yet and an offer named
  \<open>permessage-deflate\<close> that parses without error and meets one of the three decline
  conditions, \<open>Accepted()\<close> after the call returns the parameters parsed from the
  declined offer together with \<open>false\<close>, whatever \<open>params\<close> held before.
\<close>

theorem Negotiate_declined_overwrites:
  assumes "Name opt = ExtensionNameBytes" and "\<not> accepted n"
    and "Parameters_Parse opt = (p, None)"
    and "ServerMaxWindowBits p > ServerMaxWindowBits (Parameters n)
       \<or> ClientMaxWindowBits (Parameters n) > ClientMaxWindowBits p
       \<or> (ServerNoContextTakeover p \<and> \<not> ServerNoContextTakeover (Parameters n))"
  shows "Extension_Accepted (fst (Extension_Negotiate n opt)) = (p, False)"
  using assms by (auto simp: Extension_Negotiate_def Extension_Accepted_def Let_def)

theorem Negotiate_declined_overwrites_witness:
  "Extension_Accepted (fst (Extension_Negotiate
     \<lparr>Parameters = zero_Parameters\<lparr>ServerMaxWindowBits := 10\<rparr>, accepted = False,
      params = zero_Parameters\<lparr>ClientNoContextTakeover := True\<rparr>\<rparr>
     \<lparr>Name = ''permessage-deflate'', OptionParameters = [(''server_max_window_bits'', ''15'')]\<rparr>))
   = (zero_Parameters\<lparr>ServerMaxWindowBits := 15\<rparr>, False)"
  (is "Extension_Accepted (fst (Extension_Negotiate ?n ?opt)) = _")
proof -
  let ?p = "zero_Parameters\<lparr>ServerMaxWindowBits := 15\<rparr>"
  have h1: "Name ?opt = ExtensionNameBytes"
    by (simp add: ExtensionNameBytes_def ExtensionName_def)
  have h2: "\<not> accepted ?n" by simp
  have h3: "Parameters_Parse ?opt = (?p, None)"
    by (simp add: parse_eval)
  have h4: "ServerMaxWindowBits ?p > ServerMaxWindowBits (Parameters ?n)
       \<or> ClientMaxWindowBits (Parameters ?n) > ClientMaxWindowBits ?p
       \<or> (ServerNoContextTakeover ?p \<and> \<not> ServerNoContextTakeover (Parameters ?n))"
    by (simp add: zero_Parameters_def)
  from Negotiate_declined_overwrites [OF h1 h2 h3 h4] show ?thesis .
qed

section \<open>The compression bit of the frame header\<close>

lemma RsvBits_Rsv: "ws_RsvBits (ws_Rsv r1 r2 r3) = (r1, r2, r3)"
  by (simp add: ws_RsvBits_def ws_Rsv_def)

text \<open>
  Claim C6. With \<open>(r1, r2, r3)\<close> the bits of \<open>rsv\<close>: \<open>ExtendRead fseq rsv\<close> returns
  the protocol error when \<open>fseq > 0\<close> and r1 is set; it returns \<open>rsv\<close> unchanged with
  a nil error when \<open>fseq > 0\<close> and r1 is clear; and for \<open>fseq = 0\<close> it returns a nil
  error and a byte whose bits are \<open>(False, r2, r3)\<close>.
\<close>

theorem ExtendRead_cases:
  "(case ws_RsvBits rsv of (r1, r2, r3) \<Rightarrow>
      (fseq > 0 \<and> r1 \<longrightarrow> snd (ExtendRead fseq rsv) = Some errNonFirstFragmentEnabledBit)
    \<and> (fseq > 0 \<and> \<not> r1 \<longrightarrow> ExtendRead fseq rsv = (rsv, None))
    \<and> (fseq = 0 \<longrightarrow> snd (ExtendRead fseq rsv) = None
          \<and> ws_RsvBits (fst (ExtendRead fseq rsv)) = (False, r2, r3)))"
proof -
  obtain r1 r2 r3 where bits: "ws_RsvBits rsv = (r1, r2, r3)"
    by (cases "ws_RsvBits rsv")
  have later_set: "snd (ExtendRead fseq rsv) = Some errNonFirstFragmentEnabledBit"
    if "fseq > 0" and r1
    using that by (simp add: ExtendRead_def bits)
  have later_clear: "ExtendRead fseq rsv = (rsv, None)" if "fseq > 0" and "\<not> r1"
    using that by (simp add: ExtendRead_def bits)
  have first: "ExtendRead fseq rsv = (ws_Rsv False r2 r3, None)" if "fseq = 0"
    using that by (simp add: ExtendRead_def bits)
  from later_set later_clear first show ?thesis
    unfolding bits by (simp add: RsvBits_Rsv)
qed

theorem ExtendRead_cases_witness:
  "snd (ExtendRead 2 4) = Some (ProtocolError ''non-first fragment contains compression bit enabled'')
   \<and> ExtendRead 2 3 = (3, None)
   \<and> snd (ExtendRead 0 7) = None \<and> ws_RsvBits (fst (ExtendRead 0 7)) = (False, True, True)"
proof -
  have b4: "ws_RsvBits 4 = (True, False, False)"
    and b3: "ws_RsvBits 3 = (False, True, True)"
    and b7: "ws_RsvBits 7 = (True, True, True)"
    by (simp_all add: ws_RsvBits_def)
  from ExtendRead_cases [where rsv = 4 and fseq = 2] ExtendRead_cases [where rsv = 3 and fseq = 2]
    ExtendRead_cases [where rsv = 7 and fseq = 0]
  show ?thesis
    unfolding b4 b3 b7 by (simp add: errNonFirstFragmentEnabledBit_def)
qed

text \<open>Among the values of the 3-bit field only 0 has all three bits clear.\<close>

lemma field_all_clear:
  fixes rsv :: byte
  assumes "rsv \<le> 7" and "ws_RsvBits rsv = (False, False, False)"
  shows "rsv = 0"
proof -
  from assms(1) have "uint rsv \<le> 7" by (simp add: word_le_def)
  moreover have "0 \<le> uint rsv" by simp
  ultimately have "uint rsv = 0 \<or> uint rsv = 1 \<or> uint rsv = 2 \<or> uint rsv = 3
      \<or> uint rsv = 4 \<or> uint rsv = 5 \<or> uint rsv = 6 \<or> uint rsv = 7" by arith
  then have "rsv = 0 \<or> rsv = 1 \<or> rsv = 2 \<or> rsv = 3 \<or> rsv = 4 \<or> rsv = 5 \<or> rsv = 6 \<or> rsv = 7"
    by (auto simp: word_uint_eq_iff)
  with assms(2) show ?thesis
    by (auto simp: ws_RsvBits_def)
qed

text \<open>
  Claim C7. On fragment 0, for an input \<open>rsv\<close> of the 3-bit reserved field (at most
  7) whose three bits are clear, \<open>ExtendWrite\<close> returns without error a byte with r1
  set and r2, r3 clear, and \<open>ExtendRead\<close> of that byte returns the original \<open>rsv\<close>
  without error. In every branch of \<open>ExtendWrite\<close> and of \<open>ExtendRead\<close>, for every
  byte and fragment index, the bits r2 and r3 of a result returned without error are
  those of the input.
\<close>

theorem Extend_roundtrip:
  "(rsv \<le> 7 \<and> ws_RsvBits rsv = (False, False, False) \<longrightarrow>
      (case ExtendWrite 0 rsv of (w, e1) \<Rightarrow>
         e1 = None \<and> ws_RsvBits w = (True, False, False) \<and> ExtendRead 0 w = (rsv, None)))
   \<and> (snd (ExtendWrite fseq x) = None \<longrightarrow>
        snd (ws_RsvBits (fst (ExtendWrite fseq x))) = snd (ws_RsvBits x))
   \<and> (snd (ExtendRead fseq x) = None \<longrightarrow>
        snd (ws_RsvBits (fst (ExtendRead fseq x))) = snd (ws_RsvBits x))"
proof -
  have trip: "(case ExtendWrite 0 rsv of (w, e1) \<Rightarrow>
         e1 = None \<and> ws_RsvBits w = (True, False, False) \<and> ExtendRead 0 w = (rsv, None))"
    if "rsv \<le> 7" and "ws_RsvBits rsv = (False, False, False)"
  proof -
    from that have z: "rsv = 0" by (rule field_all_clear)
    have set: "ws_RsvBits (ws_Rsv True False False) = (True, False, False)"
      by (rule RsvBits_Rsv)
    have clear: "ws_Rsv False False False = 0" by (simp add: ws_Rsv_def)
    from that(2) set clear show ?thesis
      unfolding z by (simp add: ExtendWrite_def ExtendRead_def)
  qed
  have wr: "snd (ws_RsvBits (fst (ExtendWrite fseq x))) = snd (ws_RsvBits x)"
    by (auto simp: ExtendWrite_def RsvBits_Rsv split: prod.splits)
  have rd: "snd (ws_RsvBits (fst (ExtendRead fseq x))) = snd (ws_RsvBits x)"
    by (auto simp: ExtendRead_def RsvBits_Rsv split: prod.splits)
  from trip wr rd show ?thesis by simp
qed

theorem Extend_roundtrip_witness:
  "ExtendWrite 0 0 = (4, None) \<and> ExtendRead 0 4 = (0, None)
   \<and> snd (ws_RsvBits (fst (ExtendWrite 0 3))) = (True, True)
   \<and> snd (ws_RsvBits (fst (ExtendRead 0 7))) = (True, True)"
proof -
  have b0: "ws_RsvBits 0 = (False, False, False)"
    and b3: "ws_RsvBits 3 = (False, True, True)"
    and b7: "ws_RsvBits 7 = (True, True, True)"
    by (simp_all add: ws_RsvBits_def)
  have w0: "ExtendWrite 0 0 = (4, None)"
    by (simp add: ExtendWrite_def ws_Rsv_def b0)
  have e3: "snd (ExtendWrite 0 3) = None"
    by (simp add: ExtendWrite_def b3)
  have e7: "snd (ExtendRead 0 7) = None"
    by (simp add: ExtendRead_def b7)
  from Extend_roundtrip [where rsv = 0 and fseq = 0 and x = 3]
    Extend_roundtrip [where rsv = 0 and fseq = 0 and x = 7] show ?thesis
    unfolding b0 b3 b7 w0 using e3 e7 by simp
qed

section \<open>Writer: the trailer check and the stored error\<close>

lemma init_err: "w_err (fst (Writer_init w)) = w_err w"
  by (simp add: Writer_init_def split: option.splits prod.splits)

lemma init_Some: "w_c w \<noteq> None \<Longrightarrow> fst (Writer_init w) = w"
  by (auto simp add: Writer_init_def split: option.splits prod.splits)

text \<open>
  Claim C8. Let the stored error of a writer be nil and let \<open>init\<close> leave the writer
  \<open>w1\<close> with compressor \<open>c\<close>. If the compressor's \<open>Flush\<close> returns nil leaving the
  delay buffer \<open>cb\<close>, then \<open>Writer.Flush\<close> returns the bad-tail error when the bytes
  held in \<open>cb\<close> differ from \<open>00 00 FF FF\<close>, and nil when they are equal. The same
  holds for \<open>Writer.Close\<close> with the compressor's \<open>Close\<close>; when the compressor has
  no \<open>Close\<close> method, \<open>Writer.Close\<close> checks the bytes held as \<open>init\<close> left them.
\<close>

theorem Writer_tail_check:
  assumes "w_err w = None" and "Writer_init w = (w1, c)"
  shows "(Flush ops c (w_cbuf w1) = (None, c', cb) \<longrightarrow>
            snd (Writer_Flush ops w) =
              (if cbuf_buf cb \<noteq> compressionTail
               then Some (BadTail (cbuf_buf cb) compressionTail) else None))
       \<and> (Close ops = Some close \<and> close c (w_cbuf w1) = (None, c', cb) \<longrightarrow>
            snd (Writer_Close ops w) =
              (if cbuf_buf cb \<noteq> compressionTail
               then Some (BadTail (cbuf_buf cb) compressionTail) else None))
       \<and> (Close ops = None \<longrightarrow>
            snd (Writer_Close ops w) =
              (if cbuf_buf (w_cbuf w1) \<noteq> compressionTail
               then Some (BadTail (cbuf_buf (w_cbuf w1)) compressionTail) else None))"
proof -
  from assms have e1: "w_err w1 = None"
    using init_err [of w] by simp
  show ?thesis
    using assms e1
    by (simp add: Writer_Flush_def Writer_Close_def Writer_checkTail_def Let_def)
qed

theorem Writer_tail_check_witness:
  "snd (Writer_Flush
     \<lparr>Write = (\<lambda>c cb p. ((int (length p), None), c, cb)),
      Flush = (\<lambda>c cb. (None, c, cb\<lparr>cbuf_buf := [1, 2, 3, 4]\<rparr>)),
      Close = Some (\<lambda>c cb. (None, c, cb\<lparr>cbuf_buf := [0, 0, 0xff, 0xff]\<rparr>)),
      Reset = None\<rparr>
     \<lparr>Dest = (), Compressor = (\<lambda>cb. ((), cb)), w_c = None, w_err = None,
      w_cbuf = \<lparr>cbuf_buf = [9, 9, 9, 9], cbuf_dst = ()\<rparr>\<rparr>)
   = Some (BadTail [1, 2, 3, 4] [0, 0, 0xff, 0xff])
   \<and> snd (Writer_Close
     \<lparr>Write = (\<lambda>c cb p. ((int (length p), None), c, cb)),
      Flush = (\<lambda>c cb. (None, c, cb\<lparr>cbuf_buf := [1, 2, 3, 4]\<rparr>)),
      Close = Some (\<lambda>c cb. (None, c, cb\<lparr>cbuf_buf := [0, 0, 0xff, 0xff]\<rparr>)),
      Reset = None\<rparr>
     \<lparr>Dest = (), Compressor = (\<lambda>cb. ((), cb)), w_c = None, w_err = None,
      w_cbuf = \<lparr>cbuf_buf = [9, 9, 9, 9], cbuf_dst = ()\<rparr>\<rparr>)
   = None"
  (is "snd (Writer_Flush ?ops ?w) = _ \<and> _")
proof -
  let ?w1 = "?w\<lparr>w_cbuf := \<lparr>cbuf_buf = [0, 0, 0, 0], cbuf_dst = ()\<rparr>, w_c := Some ()\<rparr>"
  have h1: "w_err ?w = None" by simp
  have h2: "Writer_init ?w = (?w1, ())"
    by (simp add: Writer_init_def cbuf_reset_def)
  have f: "Flush ?ops () (w_cbuf ?w1) = (None, (), \<lparr>cbuf_buf = [1, 2, 3, 4], cbuf_dst = ()\<rparr>)"
    by simp
  have c: "Close ?ops = Some (\<lambda>c cb. (None, c, cb\<lparr>cbuf_buf := [0, 0, 0xff, 0xff]\<rparr>))
      \<and> (\<lambda>c cb. (None, c, cb\<lparr>cbuf_buf := [0, 0, 0xff, 0xff]\<rparr>)) () (w_cbuf ?w1)
        = (None, (), \<lparr>cbuf_buf = [0, 0, 0xff, 0xff], cbuf_dst = ()\<rparr>)"
    by simp
  from Writer_tail_check [OF h1 h2, where ops = ?ops and c' = "()"
      and cb = "\<lparr>cbuf_buf = [1, 2, 3, 4], cbuf_dst = ()\<rparr>"] f
  have a: "snd (Writer_Flush ?ops ?w) = Some (BadTail [1, 2, 3, 4] [0, 0, 0xff, 0xff])"
    by (simp add: compressionTail_def)
  from Writer_tail_check [OF h1 h2, where ops = ?ops and c' = "()"
      and close = "\<lambda>c cb. (None, c, cb\<lparr>cbuf_buf := [0, 0, 0xff, 0xff]\<rparr>)"
      and cb = "\<lparr>cbuf_buf = [0, 0, 0xff, 0xff], cbuf_dst = ()\<rparr>"] c
  have b: "snd (Writer_Close ?ops ?w) = None"
    by (simp add: compressionTail_def)
  from a b show ?thesis by simp
qed

text \<open>
  Claim C9. When the stored error of a writer is some \<open>e\<close>, \<open>Write\<close>, \<open>Flush\<close> and
  \<open>Close\<close> return \<open>e\<close> (\<open>Write\<close> with a count of 0) whatever the methods of the
  compressor are, and leave the writer as \<open>init\<close> leaves it (\<open>Close\<close>: as it was),
  which is the writer itself once a compressor exists; the stored error is still \<open>e\<close>
  afterwards, so the next call returns it again. \<open>Reset\<close> sets the stored error to nil.
\<close>

theorem Writer_poisoned:
  assumes "w_err w = Some e"
  shows "Writer_Write ops w p = (fst (Writer_init w), 0, Some e)
       \<and> Writer_Flush ops w = (fst (Writer_init w), Some e)
       \<and> Writer_Close ops w = (w, Some e)
       \<and> w_err (fst (Writer_init w)) = Some e
       \<and> (w_c w \<noteq> None \<longrightarrow> fst (Writer_init w) = w)
       \<and> w_err (Writer_Reset ops w dest) = None"
proof -
  obtain w1 c where i: "Writer_init w = (w1, c)" by (cases "Writer_init w")
  with assms init_err [of w] have e1: "w_err w1 = Some e" by simp
  have r: "w_err (Writer_Reset ops w dest) = None"
    by (simp add: Writer_Reset_def i Let_def split: prod.splits option.splits)
  from i e1 assms r init_Some [of w] show ?thesis
    by (simp add: Writer_Write_def Writer_Flush_def Writer_Close_def)
qed

theorem Writer_poisoned_witness:
  "Writer_Flush
     \<lparr>Write = (\<lambda>c cb p. ((int (length p), None), Suc c, cb)),
      Flush = (\<lambda>c cb. (None, Suc c, cb\<lparr>cbuf_buf := [0, 0, 0xff, 0xff]\<rparr>)),
      Close = None, Reset = None\<rparr>
     \<lparr>Dest = (), Compressor = (\<lambda>cb. (0 :: nat, cb)), w_c = Some 5,
      w_err = Some (External ''disk full''),
      w_cbuf = \<lparr>cbuf_buf = [1, 2, 3, 4], cbuf_dst = ()\<rparr>\<rparr>
   = (\<lparr>Dest = (), Compressor = (\<lambda>cb. (0 :: nat, cb)), w_c = Some 5,
       w_err = Some (External ''disk full''),
       w_cbuf = \<lparr>cbuf_buf = [1, 2, 3, 4], cbuf_dst = ()\<rparr>\<rparr>,
      Some (External ''disk full''))"
  (is "Writer_Flush ?ops ?w = _")
proof -
  have h: "w_err ?w = Some (External ''disk full'')" by simp
  have c: "w_c ?w \<noteq> None" by simp
  from Writer_poisoned [OF h, where ops = ?ops] c show ?thesis by simp
qed

end
